theory Spec2Isabelle
  imports Main "HOL-Library.Sublist"
begin

section \<open>Python values shared by the embedded functions\<close>

text \<open>
  Exceptions are values. Only the exception classes that the embedded code can raise are
  listed; a function that can raise returns \<open>py_error + 'a\<close> with \<open>Inl\<close> for the
  exception.
\<close>

datatype py_error =
  AssertionError | ValueError | TypeError | AttributeError | RuntimeError | IndexError
  | RecursionError

text \<open>
  \<open>str.find\<close>: the lowest index at which \<open>sub\<close> occurs in \<open>s\<close>; \<open>None\<close> stands
  for Python's \<open>-1\<close>. The empty string is found at index 0 of every string.
\<close>

fun str_find :: "string \<Rightarrow> string \<Rightarrow> nat option" where
  "str_find [] sub = (if sub = [] then Some 0 else None)"
| "str_find (c # cs) sub =
     (if prefix sub (c # cs) then Some 0 else map_option Suc (str_find cs sub))"

text \<open>
  \<open>str.rstrip()\<close> without argument removes trailing whitespace. A \<open>char\<close> stands for
  a code point below 256; these are the ones Python counts as whitespace in that range.
\<close>

definition is_space :: "char \<Rightarrow> bool" where
  "is_space c =
     (let n = (of_char c :: nat)
      in (9 \<le> n \<and> n \<le> 13) \<or> (28 \<le> n \<and> n \<le> 32) \<or> n = 133 \<or> n = 160)"

definition rstrip :: "string \<Rightarrow> string" where
  "rstrip s = rev (dropWhile is_space (rev s))"

text \<open>
  The slices the code takes. \<open>xs[start:]\<close> for an arbitrary integer \<open>start\<close>, and
  \<open>xs[:-n]\<close> for a length \<open>n\<close>: Python reads \<open>-0\<close> as \<open>0\<close>, so \<open>xs[:-0]\<close> is empty
  and \<open>xs[-0:]\<close> is the whole list.
\<close>

definition py_slice_from :: "int \<Rightarrow> 'a list \<Rightarrow> 'a list" where
  "py_slice_from start xs =
     (let n = int (length xs);
          s = (if start < 0 then max (n + start) 0 else min start n)
      in drop (nat s) xs)"

definition py_drop_last :: "nat \<Rightarrow> 'a list \<Rightarrow> 'a list" where
  "py_drop_last n xs = (if n = 0 then [] else take (length xs - n) xs)"

definition py_slice :: "nat \<Rightarrow> nat \<Rightarrow> 'a list \<Rightarrow> 'a list" where
  "py_slice lo hi xs = take (hi - lo) (drop lo xs)"


section \<open>Conversation templates (data/conversation/lib.py)\<close>

text \<open>
  \<open>SeparatorStyle\<close> has the members \<open>SINGLE\<close> and \<open>TWO\<close>. The dataclass does not check
  the field, so \<open>OtherStyle\<close> stands for any value that is neither: it reaches the
  final \<open>else\<close> of \<open>process\<close>.
\<close>

datatype SeparatorStyle = SINGLE | TWO | OtherStyle

text \<open>
  A message is a string or a 3-tuple whose first component is the string
  (\<open>message, _, _ = message\<close>); an absent message is \<open>None\<close>.
\<close>

datatype message = Text string | Triple string string string

fun message_text :: "message \<Rightarrow> string" where
  "message_text (Text s) = s"
| "message_text (Triple s _ _) = s"

text \<open>Python truthiness of a message: \<open>None\<close> and the empty string are false.\<close>

fun truthy :: "message option \<Rightarrow> bool" where
  "truthy None = False"
| "truthy (Some (Text s)) = (s \<noteq> [])"
| "truthy (Some (Triple _ _ _)) = True"

type_synonym turn = "string \<times> message option"

record Conversation =
  system :: string
  roles :: "string \<times> string"
  messages :: "turn list"
  sep_style :: SeparatorStyle
  sep :: string
  sep2 :: "string option"
  version :: string
  skip_next :: bool

record process_result =
  conv :: string
  to_predict :: "string list"

text \<open>
  The loop of the \<open>SINGLE\<close> branch of \<open>process\<close>, from index \<open>i\<close> on, with the
  accumulators \<open>ret\<close> and \<open>l_to_predict\<close>. A failing \<open>assert\<close> ends the loop with
  \<open>AssertionError\<close>.
\<close>

fun process_single ::
  "Conversation \<Rightarrow> bool \<Rightarrow> nat \<Rightarrow> turn list \<Rightarrow> string \<times> string list
     \<Rightarrow> py_error + string \<times> string list" where
  "process_single c sp i [] acc = Inr acc"
| "process_single c sp i ((role, m) # rest) (ret, l) =
     (case m of
        Some msg \<Rightarrow>
          (let message = message_text msg;
               ret' = ret @ '' '' @ role @ '': '' @ message @ ''\<newline>'' @ sep c;
               l' = (if role = snd (roles c)
                     then l @ [(if sp then '' '' else []) @ message @ ''\<newline>'' @ sep c]
                     else l)
           in process_single c sp (Suc i) rest (ret', l'))
      | None \<Rightarrow>
          (if int i = int (length (messages c)) - 1
           then process_single c sp (Suc i) rest
                  (ret @ '' '' @ role @ '':'' @ (if sp then [] else '' ''), l)
           else Inl AssertionError))"

text \<open>
  The loop of the \<open>TWO\<close> branch. \<open>seps[i % 2]\<close> is \<open>sep\<close> at even and \<open>sep2\<close> at odd
  indices; \<open>sep2\<close> defaults to \<open>None\<close>, and concatenating it to a string raises
  \<open>TypeError\<close>. The branch tests \<open>if message:\<close>, so an empty string takes the
  \<open>else\<close> path like an absent message.
\<close>

definition seps :: "Conversation \<Rightarrow> nat \<Rightarrow> string option" where
  "seps c i = (if i mod 2 = 0 then Some (sep c) else sep2 c)"

fun process_two ::
  "Conversation \<Rightarrow> bool \<Rightarrow> nat \<Rightarrow> turn list \<Rightarrow> string \<times> string list
     \<Rightarrow> py_error + string \<times> string list" where
  "process_two c sp i [] acc = Inr acc"
| "process_two c sp i ((role, m) # rest) (ret, l) =
     (case (if truthy m then m else None) of
        Some msg \<Rightarrow>
          (case seps c i of
             None \<Rightarrow> Inl TypeError
           | Some s \<Rightarrow>
              (let message = message_text msg;
                   ret' = ret @ '' '' @ role @ '': '' @ message @ s;
                   l' = (if role = snd (roles c)
                         then l @ [(if sp then '' '' else []) @ message @ s]
                         else l)
               in process_two c sp (Suc i) rest (ret', l')))
      | None \<Rightarrow>
          (if int i = int (length (messages c)) - 1
           then process_two c sp (Suc i) rest
                  (ret @ '' '' @ role @ '':'' @ (if sp then [] else '' ''), l)
           else Inl AssertionError))"

definition mk_result :: "string \<times> string list \<Rightarrow> process_result" where
  "mk_result r = \<lparr>conv = fst r, to_predict = snd r\<rparr>"

definition process :: "Conversation \<Rightarrow> bool \<Rightarrow> py_error + process_result" where
  "process c space_part_of_next_word =
     (case sep_style c of
        SINGLE \<Rightarrow>
          map_sum id mk_result
            (process_single c space_part_of_next_word 0 (messages c)
               (system c @ ''\<newline>\<newline>'' @ sep c, []))
      | TWO \<Rightarrow>
          map_sum id mk_result
            (process_two c space_part_of_next_word 0 (messages c) (system c @ sep c, []))
      | OtherStyle \<Rightarrow> Inl ValueError)"

text \<open>
  \<open>get_prompt\<close> calls \<open>get_prompt\<close> itself, with the same argument, and subscripts
  what that call returns with \<open>'conv'\<close> (a string subscripted by a string would be a
  \<open>TypeError\<close>). The interpreter allows a bounded number of nested calls: \<open>depth\<close> is
  the number of frames still available when the call is made, and a call made with none
  left raises \<open>RecursionError\<close>, which passes through the frames above it.
\<close>

fun get_prompt :: "nat \<Rightarrow> Conversation \<Rightarrow> bool \<Rightarrow> py_error + string" where
  "get_prompt 0 c space_part_of_next_word = Inl RecursionError"
| "get_prompt (Suc depth) c space_part_of_next_word =
     (case get_prompt depth c space_part_of_next_word of
        Inl e \<Rightarrow> Inl e
      | Inr r \<Rightarrow> Inl TypeError)"

text \<open>The template \<open>conv_v1_2\<close>, which is \<open>default_conversation\<close>.\<close>

definition conv_v1_2 :: Conversation where
  "conv_v1_2 =
     \<lparr>system = ''A chat between a curious human and an artificial intelligence assistant. ''
               @ ''The assistant gives helpful, detailed, and polite answers to the human's questions.'',
      roles = (''Human'', ''Assistant''),
      messages = [],
      sep_style = SINGLE,
      sep = ''###'',
      sep2 = None,
      version = ''Unknown'',
      skip_next = False\<rparr>"

text \<open>The template \<open>conv_vicuna_v1_1\<close>, of the two-separator style.\<close>

definition conv_vicuna_v1_1 :: Conversation where
  "conv_vicuna_v1_1 =
     \<lparr>system = ''A chat between a curious user and an artificial intelligence assistant. ''
               @ ''The assistant gives helpful, detailed, and polite answers to the user's questions.'',
      roles = (''USER'', ''ASSISTANT''),
      messages = [],
      sep_style = TWO,
      sep = '' '',
      sep2 = Some ''</s>'',
      version = ''v1'',
      skip_next = False\<rparr>"

subsection \<open>The rendering as the specification words it\<close>

text \<open>
  The specification's account of the \<open>SINGLE\<close> style: after the header, one segment per
  turn.
\<close>

fun segment :: "string \<Rightarrow> bool \<Rightarrow> turn \<Rightarrow> string" where
  "segment sp_sep space_flag (role, Some m) =
     '' '' @ role @ '': '' @ message_text m @ ''\<newline>'' @ sp_sep"
| "segment sp_sep space_flag (role, None) =
     '' '' @ role @ '':'' @ (if space_flag then [] else '' '')"

definition render_single :: "Conversation \<Rightarrow> bool \<Rightarrow> string" where
  "render_single c space_flag =
     system c @ ''\<newline>\<newline>'' @ sep c @ concat (map (segment (sep c) space_flag) (messages c))"

definition supervised_spans :: "Conversation \<Rightarrow> bool \<Rightarrow> string list" where
  "supervised_spans c space_flag =
     map (\<lambda>t. (if space_flag then '' '' else []) @ message_text (the (snd t)) @ ''\<newline>'' @ sep c)
       (filter (\<lambda>t. snd t \<noteq> None \<and> fst t = snd (roles c)) (messages c))"

text \<open>A turn history in which only the last turn may lack its message.\<close>

definition valid_turns :: "turn list \<Rightarrow> bool" where
  "valid_turns ts = list_all (\<lambda>t. snd t \<noteq> None) (butlast ts)"

text \<open>
  A turn history in which every turn before the last has a message that Python counts as
  true: present and not the empty string.
\<close>

definition nonempty_turns :: "turn list \<Rightarrow> bool" where
  "nonempty_turns ts = list_all (\<lambda>t. truthy (snd t)) (butlast ts)"

text \<open>
  Modelled from the spec: \<open>ConversationGenerator\<close>, whose attribute
  \<open>response_end_signal\<close> the workers read, is not among the sources. The specification
  gives it as the separator that ends an assistant turn: \<open>sep\<close> for the single-separator
  style, the separator of the assistant's turn parity (\<open>sep2\<close>) for the paired style.
\<close>

definition response_end_signal :: "Conversation \<Rightarrow> string option" where
  "response_end_signal c =
     (case sep_style c of SINGLE \<Rightarrow> Some (sep c) | TWO \<Rightarrow> sep2 c | OtherStyle \<Rightarrow> None)"


section \<open>The streaming decode loop (MetaModel.stream_generate)\<close>

record partial_result =
  pr_text :: string
  end_of_content :: bool

text \<open>
  A run of a Python generator to its end: the values it yields, in order, and the value of
  its \<open>return\<close> statement. A \<open>for\<close> loop over the generator receives the yielded
  values; the returned value travels in the \<open>StopIteration\<close> that ends the loop and the
  loop discards it.
\<close>

record 'a generator =
  yields :: "'a list"
  returned :: 'a

definition for_loop_items :: "'a generator \<Rightarrow> 'a list" where
  "for_loop_items g = yields g"

text \<open>
  What \<open>stream_generate\<close> uses of the model and its tokenizer. \<open>next_token\<close> stands for
  lines 332 to 338 (the forward pass over the window not yet cached, then sampling or
  arg-max, then \<open>.item()\<close>) as a function of the tokens before the current position, for
  the image, temperature, top-p and seed of the request.
\<close>

record MetaModel =
  encode :: "string \<Rightarrow> int list"
  decode :: "int list \<Rightarrow> string"
  eos_id :: int
  max_seq_len :: int
  image_words :: int
  next_token :: "int list \<Rightarrow> int"

text \<open>
  The loop over \<open>additional_stop_symbols\<close>: the first symbol, in the caller's order, that
  occurs in the text cuts the text at its first occurrence.
\<close>

fun first_stop :: "string \<Rightarrow> string list \<Rightarrow> string option" where
  "first_stop generated [] = None"
| "first_stop generated (stop_symbol # rest) =
     (case str_find generated stop_symbol of
        Some stop_pos \<Rightarrow> Some (take stop_pos generated)
      | None \<Rightarrow> first_stop generated rest)"

text \<open>
  The context window of a request: \<open>args.max_seq_len\<close>, less the image tokens when an
  image is given.
\<close>

definition context_window :: "MetaModel \<Rightarrow> bool \<Rightarrow> int" where
  "context_window M has_image =
     (if has_image then max_seq_len M - image_words M else max_seq_len M)"

text \<open>Lines 310 to 323: the truncated prompt, the window and \<open>total_len\<close>.\<close>

definition stream_generate_init ::
  "MetaModel \<Rightarrow> string \<Rightarrow> bool \<Rightarrow> int \<Rightarrow> int list \<times> int \<times> int" where
  "stream_generate_init M prompt has_image max_gen_len =
     (let prompt_tokens = encode M prompt;
          max_seq_len' = (if has_image then max_seq_len M - image_words M else max_seq_len M);
          max_prompt_size = max_seq_len' - max_gen_len;
          prompt_tokens = py_slice_from (- max_prompt_size) prompt_tokens;
          prompt_size = int (length prompt_tokens);
          total_len = min max_seq_len' (max_gen_len + prompt_size)
      in (prompt_tokens, max_seq_len', total_len))"

text \<open>
  The \<open>for cur_pos in range(start_pos, total_len)\<close> loop, from \<open>cur_pos\<close> on.
  Both \<open>return\<close> statements of the source, the one after a stop symbol and the one after
  the loop, end the generator; only the \<open>yield\<close> inside the loop produces an item.
\<close>

function stream_generate_loop ::
  "MetaModel \<Rightarrow> string list \<Rightarrow> nat \<Rightarrow> nat \<Rightarrow> int list \<Rightarrow> nat \<Rightarrow> nat
     \<Rightarrow> partial_result generator" where
  "stream_generate_loop M stops start_pos total_len tokens generate_until cur_pos =
     (if cur_pos < total_len then
        (let nxt = next_token M (take cur_pos tokens) in
         if nxt = eos_id M then
           \<lparr>yields = [],
            returned = \<lparr>pr_text = decode M (py_slice start_pos generate_until tokens),
                        end_of_content = True\<rparr>\<rparr>
         else
           (let tokens' = tokens[cur_pos := nxt];
                generated = decode M (py_slice start_pos (cur_pos + 1) tokens')
            in case first_stop generated stops of
                 Some truncated \<Rightarrow>
                   \<lparr>yields = [], returned = \<lparr>pr_text = truncated, end_of_content = True\<rparr>\<rparr>
               | None \<Rightarrow>
                   (let g = stream_generate_loop M stops start_pos total_len tokens'
                              (cur_pos + 1) (cur_pos + 1)
                    in g\<lparr>yields := \<lparr>pr_text = generated, end_of_content = False\<rparr> # yields g\<rparr>)))
      else
        \<lparr>yields = [],
         returned = \<lparr>pr_text = decode M (py_slice start_pos generate_until tokens),
                     end_of_content = True\<rparr>\<rparr>)"
  by pat_completeness auto
termination
  by (relation "measure (\<lambda>(M, stops, start_pos, total_len, tokens, generate_until, cur_pos).
                           total_len - cur_pos)") auto

declare stream_generate_loop.simps [simp del]

text \<open>
  The whole function. \<open>torch.full\<close> rejects a negative length, and the assignment of the
  prompt into \<open>tokens[:prompt_size]\<close> rejects a prompt longer than \<open>total_len\<close>, unless
  it is a single token, which broadcasts.
\<close>

definition stream_generate ::
  "MetaModel \<Rightarrow> string \<Rightarrow> bool \<Rightarrow> int \<Rightarrow> string list
     \<Rightarrow> py_error + partial_result generator" where
  "stream_generate M prompt has_image max_gen_len additional_stop_symbols =
     (case stream_generate_init M prompt has_image max_gen_len of
        (prompt_tokens, max_seq_len', total_len) \<Rightarrow>
          (let prompt_size = int (length prompt_tokens) in
           if total_len < 0 then Inl RuntimeError
           else if total_len < prompt_size \<and> prompt_size \<noteq> 1 then Inl RuntimeError
           else
             Inr (stream_generate_loop M additional_stop_symbols
                    (nat prompt_size) (nat total_len)
                    (take (nat total_len) prompt_tokens
                       @ replicate (nat total_len - length prompt_tokens) 0)
                    (nat prompt_size) (nat prompt_size))))"


section \<open>The model worker and the relay (demos/multi\_turn\_mm.py)\<close>

text \<open>What travels on the response queue: the two marker classes and the result dicts.\<close>

datatype response = Ready | ModelFailure | Content partial_result

text \<open>
  Lines 112 to 126, the body of the worker's loop up to the \<open>put\<close>, for one item of the
  stream: \<open>None\<close> is the \<open>continue\<close>, \<open>Some\<close> carries the item as it is posted.
\<close>

definition trim_response :: "string \<Rightarrow> partial_result \<Rightarrow> partial_result option" where
  "trim_response conv_sep stream_response =
     (let r = (case str_find (pr_text stream_response) conv_sep of
                 Some end_pos \<Rightarrow>
                   \<lparr>pr_text = rstrip (take end_pos (pr_text stream_response)) @ ''\<newline>'',
                    end_of_content = True\<rparr>
               | None \<Rightarrow> stream_response)
      in if \<not> end_of_content r then
           (if length (pr_text r) < length conv_sep then None
            else Some (r\<lparr>pr_text := py_drop_last (length conv_sep) (pr_text r)\<rparr>))
         else Some r)"

text \<open>
  A worker holds the response queue or \<open>None\<close> (line 297: only rank 0 is given the
  queue). The queue is the list of what has been put on it, oldest first.
\<close>

definition rank_response_queue :: "nat \<Rightarrow> response list \<Rightarrow> response list option" where
  "rank_response_queue rank response_queue = (if rank = 0 then Some response_queue else None)"

definition put :: "response list option \<Rightarrow> response \<Rightarrow> response list option" where
  "put response_queue x = map_option (\<lambda>q. q @ [x]) response_queue"

text \<open>
  The \<open>for stream_response in model.stream_generate(...)\<close> loop over the items the
  generator yields. The result tells whether the loop ended by \<open>break\<close>.
\<close>

fun worker_for_loop ::
  "string \<Rightarrow> response list option \<Rightarrow> partial_result list \<Rightarrow> response list option \<times> bool" where
  "worker_for_loop conv_sep response_queue [] = (response_queue, False)"
| "worker_for_loop conv_sep response_queue (stream_response # rest) =
     (case trim_response conv_sep stream_response of
        None \<Rightarrow> worker_for_loop conv_sep response_queue rest
      | Some r \<Rightarrow>
          (let response_queue' = put response_queue (Content r)
           in if end_of_content r then (response_queue', True)
              else worker_for_loop conv_sep response_queue' rest))"

text \<open>
  What the loop puts on a queue it holds, for the items the generator yields: the
  trimmed items up to and including the first terminal one.
\<close>

fun posted :: "string \<Rightarrow> partial_result list \<Rightarrow> partial_result list" where
  "posted conv_sep [] = []"
| "posted conv_sep (stream_response # rest) =
     (case trim_response conv_sep stream_response of
        None \<Rightarrow> posted conv_sep rest
      | Some r \<Rightarrow> r # (if end_of_content r then [] else posted conv_sep rest))"

text \<open>
  What handling one request does inside the \<open>try\<close>: the items the stream yields and, if
  an exception ends it, the exception raised when the item after them is asked for (with
  no items, an exception raised before the stream starts, such as a failed prompt
  rendering).
\<close>

record request_run =
  items :: "partial_result list"
  raised :: "py_error option"


text \<open>
  One turn of the worker's \<open>while True\<close>: the guarded \<open>put(Ready())\<close>, the \<open>try\<close> body
  and the handler. The handler calls \<open>response_queue.put\<close> without the guard, which on
  \<open>None\<close> raises \<open>AttributeError\<close> out of the worker function.
\<close>

definition worker_iteration ::
  "string \<Rightarrow> response list option \<Rightarrow> request_run \<Rightarrow> py_error + response list option" where
  "worker_iteration conv_sep response_queue run =
     (let q1 = put response_queue Ready in
      case worker_for_loop conv_sep q1 (items run) of
        (q2, broke) \<Rightarrow>
          (if broke then Inr q2
           else case raised run of
                  None \<Rightarrow> Inr q2
                | Some e \<Rightarrow>
                    (case q2 of
                       None \<Rightarrow> Inl AttributeError
                     | Some q \<Rightarrow> Inr (Some (q @ [ModelFailure])))))"

text \<open>
  The worker over the requests it is sent; after the last one it posts \<open>Ready\<close> again and
  waits on its request queue.
\<close>

fun model_worker ::
  "string \<Rightarrow> response list option \<Rightarrow> request_run list \<Rightarrow> py_error + response list option" where
  "model_worker conv_sep response_queue [] = Inr (put response_queue Ready)"
| "model_worker conv_sep response_queue (run # runs) =
     (case worker_iteration conv_sep response_queue run of
        Inl e \<Rightarrow> Inl e
      | Inr q \<Rightarrow> model_worker conv_sep q runs)"

text \<open>
  \<open>stream_model_output\<close> reads the response queue; its argument is what the queue
  delivers, in order, and a \<open>get\<close> on an exhausted queue waits for ever.
\<close>

datatype outcome = Finished | Raised py_error | Blocked

text \<open>The first loop: everything up to and including the first \<open>Ready\<close> is dropped.\<close>

fun wait_ready :: "response list \<Rightarrow> response list option" where
  "wait_ready [] = None"
| "wait_ready (Ready # q) = Some q"
| "wait_ready (content_piece # q) = wait_ready q"

text \<open>
  The second loop: the content pieces it relays and how it ends. A \<open>Ready\<close> object read
  here is subscripted with \<open>"text"\<close>, which raises \<open>TypeError\<close>.
\<close>

fun relay_loop :: "response list \<Rightarrow> partial_result list \<times> outcome" where
  "relay_loop [] = ([], Blocked)"
| "relay_loop (ModelFailure # q) = ([], Raised RuntimeError)"
| "relay_loop (Ready # q) = ([], Raised TypeError)"
| "relay_loop (Content content_piece # q) =
     (if end_of_content content_piece then ([content_piece], Finished)
      else (case relay_loop q of (rs, out) \<Rightarrow> (content_piece # rs, out)))"

text \<open>
  \<open>chatbot[-1][1] = content_piece["text"]\<close>; \<open>chatbot\<close> is the list of question and
  answer pairs.
\<close>

type_synonym chatbot = "(string \<times> string option) list"

definition set_answer :: "chatbot \<Rightarrow> string \<Rightarrow> chatbot" where
  "set_answer chatbot txt = chatbot[length chatbot - 1 := (fst (last chatbot), Some txt)]"

definition stream_model_output :: "chatbot \<Rightarrow> response list \<Rightarrow> chatbot list \<times> outcome" where
  "stream_model_output chatbot response_queue =
     (case wait_ready response_queue of
        None \<Rightarrow> ([], Blocked)
      | Some q \<Rightarrow>
          (case relay_loop q of
             (rs, out) \<Rightarrow>
               (if chatbot = [] \<and> rs \<noteq> [] then ([], Raised IndexError)
                else (map (\<lambda>r. set_answer chatbot (pr_text r)) rs, out))))"

text \<open>
  One request from end to end on the primary worker, which starts with an empty response
  queue: what the relay observes of the worker's posts for the request's run.
\<close>

definition served :: "string \<Rightarrow> request_run \<Rightarrow> partial_result list \<times> outcome" where
  "served conv_sep run =
     (case model_worker conv_sep (rank_response_queue 0 []) [run] of
        Inl e \<Rightarrow> ([], Blocked)
      | Inr None \<Rightarrow> ([], Blocked)
      | Inr (Some q) \<Rightarrow>
          (case wait_ready q of None \<Rightarrow> ([], Blocked) | Some q' \<Rightarrow> relay_loop q'))"


section \<open>Concrete inputs\<close>

text \<open>
  The specification's rendering scenario: one question, and the assistant's turn left open.
\<close>

definition scenario_conv :: Conversation where
  "scenario_conv =
     \<lparr>system = ''S'', roles = (''Human'', ''Assistant''),
      messages = [(''Human'', Some (Text ''Hi'')), (''Assistant'', None)],
      sep_style = SINGLE, sep = ''###'', sep2 = None, version = ''Unknown'', skip_next = False\<rparr>"

text \<open>The same template with the first turn's message absent as well.\<close>

definition broken_conv :: Conversation where
  "broken_conv = scenario_conv\<lparr>messages := [(''Human'', None), (''Assistant'', None)]\<rparr>"

text \<open>
  Two-separator conversations: one whose first message is the empty string, one that
  leaves only the last turn open, and two built without \<open>sep2\<close> (its default is
  \<open>None\<close>), with one and with two open turns at the end.
\<close>

definition vicuna_empty_message :: Conversation where
  "vicuna_empty_message =
     conv_vicuna_v1_1\<lparr>messages := [(''USER'', Some (Text [])), (''ASSISTANT'', None)]\<rparr>"

definition vicuna_open :: Conversation where
  "vicuna_open =
     conv_vicuna_v1_1\<lparr>messages := [(''USER'', Some (Text ''Hi'')), (''ASSISTANT'', None)]\<rparr>"

definition vicuna_broken :: Conversation where
  "vicuna_broken = conv_vicuna_v1_1\<lparr>messages := [(''USER'', None), (''ASSISTANT'', None)]\<rparr>"

definition two_without_sep2 :: Conversation where
  "two_without_sep2 =
     conv_vicuna_v1_1\<lparr>sep2 := None,
       messages := [(''USER'', Some (Text ''Hi'')), (''ASSISTANT'', Some (Text ''Yo'')),
                    (''USER'', None)]\<rparr>"

definition two_without_sep2_broken :: Conversation where
  "two_without_sep2_broken =
     conv_vicuna_v1_1\<lparr>sep2 := None,
       messages := [(''USER'', Some (Text ''Hi'')), (''ASSISTANT'', Some (Text ''Yo'')),
                    (''USER'', None), (''ASSISTANT'', None)]\<rparr>"

text \<open>
  A model with a four-piece vocabulary whose next token is scripted: after a prompt of
  \<open>n0\<close> tokens it produces the tokens of \<open>script\<close> in order and then the
  end-of-sequence id. The tokenizer decodes piece by piece.
\<close>

definition vocab :: "int \<Rightarrow> string" where
  "vocab t =
     (if t = 3 then ''a'' else if t = 4 then ''b'' else if t = 5 then '' ''
      else if t = 6 then ''#'' else [])"

definition scripted :: "int list \<Rightarrow> nat \<Rightarrow> MetaModel" where
  "scripted script n0 =
     \<lparr>encode = (\<lambda>s. 1 # replicate (length s) 3),
      decode = (\<lambda>ts. concat (map vocab ts)),
      eos_id = 2,
      max_seq_len = 16,
      image_words = 4,
      next_token = (\<lambda>window. if length window - n0 < length script
                             then script ! (length window - n0) else 2)\<rparr>"



section \<open>Properties of the prompt rendering\<close>

lemma process_single_valid:
  assumes "messages c = pre @ rest" "i = length pre" "valid_turns (pre @ rest)"
  shows "process_single c sp i rest (ret, l) =
           Inr (ret @ concat (map (segment (sep c) sp) rest),
                l @ map (\<lambda>t. (if sp then '' '' else []) @ message_text (the (snd t))
                                @ ''\<newline>'' @ sep c)
                      (filter (\<lambda>t. snd t \<noteq> None \<and> fst t = snd (roles c)) rest))"
  using assms
proof (induction rest arbitrary: pre i ret l)
  case Nil
  then show ?case by simp
next
  case (Cons t rest)
  obtain role m where t: "t = (role, m)" by (cases t)
  have step: "messages c = (pre @ [t]) @ rest" "Suc i = length (pre @ [t])"
    "valid_turns ((pre @ [t]) @ rest)"
    using Cons.prems by simp_all
  note IH = Cons.IH[OF step]
  show ?case
  proof (cases m)
    case None
    have "rest = []"
    proof (rule ccontr)
      assume "rest \<noteq> []"
      then have "butlast (pre @ t # rest) = pre @ t # butlast rest" by (simp add: butlast_append)
      with Cons.prems(3) t None show False by (simp add: valid_turns_def)
    qed
    with Cons.prems t None show ?thesis by simp
  next
    case (Some msg)
    with t IH show ?thesis by (simp add: Let_def)
  qed
qed

lemma process_single_invalid:
  assumes "messages c = pre @ rest" "i = length pre" "\<not> valid_turns rest"
  shows "process_single c sp i rest (ret, l) = Inl AssertionError"
  using assms
proof (induction rest arbitrary: pre i ret l)
  case Nil
  then show ?case by (simp add: valid_turns_def)
next
  case (Cons t rest)
  obtain role m where t: "t = (role, m)" by (cases t)
  from Cons.prems(3) have ne: "rest \<noteq> []" by (auto simp: valid_turns_def)
  have step: "messages c = (pre @ [t]) @ rest" "Suc i = length (pre @ [t])"
    using Cons.prems by simp_all
  show ?case
  proof (cases m)
    case None
    from ne have "length rest > 0" by simp
    with Cons.prems(1,2) have "int i \<noteq> int (length (messages c)) - 1" by simp
    with t None show ?thesis by simp
  next
    case (Some msg)
    with Cons.prems(3) ne t have "\<not> valid_turns rest" by (simp add: valid_turns_def)
    from Cons.IH[OF step this] t Some show ?thesis by (simp add: Let_def)
  qed
qed

lemma process_two_invalid:
  assumes "sep2 c \<noteq> None" "messages c = pre @ rest" "i = length pre" "\<not> valid_turns rest"
  shows "process_two c sp i rest (ret, l) = Inl AssertionError"
  using assms(2-)
proof (induction rest arbitrary: pre i ret l)
  case Nil
  then show ?case by (simp add: valid_turns_def)
next
  case (Cons t rest)
  obtain role m where t: "t = (role, m)" by (cases t)
  from Cons.prems(3) have ne: "rest \<noteq> []" by (auto simp: valid_turns_def)
  have step: "messages c = (pre @ [t]) @ rest" "Suc i = length (pre @ [t])"
    using Cons.prems by simp_all
  from ne have "length rest > 0" by simp
  with Cons.prems(1,2) have notlast: "int i \<noteq> int (length (messages c)) - 1" by simp
  from assms(1) have "\<exists>s. seps c i = Some s" by (auto simp: seps_def)
  then obtain s where s: "seps c i = Some s" ..
  show ?case
  proof (cases "truthy m")
    case False
    with t notlast show ?thesis by simp
  next
    case True
    then obtain msg where m: "m = Some msg" by (cases m) auto
    with Cons.prems(3) ne t have inv: "\<not> valid_turns rest" by (simp add: valid_turns_def)
    from Cons.IH[OF step inv] t True m s show ?thesis by (simp add: Let_def)
  qed
qed

lemma process_two_nonempty:
  assumes "sep2 c \<noteq> None" "messages c = pre @ rest" "i = length pre" "nonempty_turns rest"
  shows "\<exists>r. process_two c sp i rest (ret, l) = Inr r"
  using assms(2-)
proof (induction rest arbitrary: pre i ret l)
  case Nil
  then show ?case by simp
next
  case (Cons t rest)
  obtain role m where t: "t = (role, m)" by (cases t)
  have step: "messages c = (pre @ [t]) @ rest" "Suc i = length (pre @ [t])"
    using Cons.prems by simp_all
  from assms(1) have "\<exists>s. seps c i = Some s" by (auto simp: seps_def)
  then obtain s where s: "seps c i = Some s" ..
  from Cons.prems(3) have rest: "nonempty_turns rest"
    by (cases "rest = []") (simp_all add: nonempty_turns_def)
  have IH: "\<exists>r. process_two c sp (Suc i) rest (ret', l') = Inr r" for ret' l'
    using Cons.IH[OF step rest] .
  show ?case
  proof (cases "truthy m")
    case True
    then obtain msg where m: "m = Some msg" by (cases m) auto
    with IH t True s show ?thesis by (simp add: Let_def)
  next
    case False
    with Cons.prems(3) t have "rest = []" by (cases "rest = []") (simp_all add: nonempty_turns_def)
    with Cons.prems(1,2) have "int i = int (length (messages c)) - 1" by simp
    with IH t False show ?thesis by simp
  qed
qed

text \<open>
  C4. Under the single-separator style, for every turn history in which only the last
  turn may lack its message, \<open>process\<close> returns the prompt the specification describes:
  the system text, two newlines and the separator, then for each turn with a message a
  space, the role, a colon and a space, the message, a newline and the separator, and for
  the open last turn a space, the role and a colon, followed by one space exactly when
  \<open>space_part_of_next_word\<close> is false. The response end signal is the separator.
\<close>

theorem process_single_style_prompt:
  assumes "sep_style c = SINGLE" and "valid_turns (messages c)"
  shows "process c sp = Inr \<lparr>conv = render_single c sp, to_predict = supervised_spans c sp\<rparr>
         \<and> response_end_signal c = Some (sep c)"
  using assms process_single_valid[of c "[]" "messages c" 0 sp]
  by (simp add: process_def mk_result_def render_single_def supervised_spans_def
      response_end_signal_def)

text \<open>
  The specification's scenario: system text \<open>S\<close>, separator \<open>###\<close>, the turns Human
  \<open>Hi\<close> and an open Assistant turn.
\<close>

theorem process_single_style_prompt_scenario:
  "sep_style scenario_conv = SINGLE \<and> valid_turns (messages scenario_conv)
   \<and> map_sum id conv (process scenario_conv True)
       = Inr ''S\<newline>\<newline>### Human: Hi\<newline>### Assistant:''
   \<and> response_end_signal scenario_conv = Some ''###''"
  using process_single_style_prompt[of scenario_conv True]
  by (simp add: scenario_conv_def valid_turns_def render_single_def)

text \<open>
  C9, as the code has it. Under a well-formed template (the single-separator style, or
  the two-separator style with \<open>sep2\<close> present) \<open>process\<close> fails with
  \<open>AssertionError\<close> whenever a turn other than the last lacks its message. An empty turn
  list is not rejected: \<open>process\<close> returns the header alone. Under the single-separator
  style \<open>process\<close> returns normally for every history in which only the last turn may
  lack its message; under the two-separator style with \<open>sep2\<close> present it returns
  normally for every history whose messages before the last turn are all non-empty.
\<close>

theorem process_failure_conditions:
  "((sep_style c = SINGLE \<or> (sep_style c = TWO \<and> sep2 c \<noteq> None)) \<longrightarrow>
      \<not> valid_turns (messages c) \<longrightarrow> process c sp = Inl AssertionError)
   \<and> (sep_style c = SINGLE \<longrightarrow> valid_turns (messages c) \<longrightarrow> (\<exists>r. process c sp = Inr r))
   \<and> (sep_style c = TWO \<longrightarrow> sep2 c \<noteq> None \<longrightarrow> nonempty_turns (messages c) \<longrightarrow>
        (\<exists>r. process c sp = Inr r))
   \<and> (sep_style c = SINGLE \<longrightarrow> messages c = [] \<longrightarrow>
        process c sp = Inr \<lparr>conv = system c @ ''\<newline>\<newline>'' @ sep c, to_predict = []\<rparr>)
   \<and> (sep_style c = TWO \<longrightarrow> messages c = [] \<longrightarrow>
        process c sp = Inr \<lparr>conv = system c @ sep c, to_predict = []\<rparr>)"
proof (intro conjI impI)
  assume wf: "sep_style c = SINGLE \<or> (sep_style c = TWO \<and> sep2 c \<noteq> None)"
    and inv: "\<not> valid_turns (messages c)"
  from wf show "process c sp = Inl AssertionError"
  proof
    assume "sep_style c = SINGLE"
    with process_single_invalid[of c "[]" "messages c" 0 sp] inv show ?thesis
      by (simp add: process_def)
  next
    assume two: "sep_style c = TWO \<and> sep2 c \<noteq> None"
    then have "process_two c sp 0 (messages c) (system c @ sep c, []) = Inl AssertionError"
      using process_two_invalid[of c "[]" "messages c" 0 sp] inv by simp
    with two show ?thesis by (simp add: process_def)
  qed
next
  assume "sep_style c = SINGLE" "valid_turns (messages c)"
  with process_single_valid[of c "[]" "messages c" 0 sp]
  show "\<exists>r. process c sp = Inr r" by (simp add: process_def)
next
  assume two: "sep_style c = TWO" and s2: "sep2 c \<noteq> None" and ne: "nonempty_turns (messages c)"
  have "\<exists>r. process_two c sp 0 (messages c) (system c @ sep c, []) = Inr r"
    by (rule process_two_nonempty[OF s2 _ _ ne, where pre = "[]"]) simp_all
  then obtain r where "process_two c sp 0 (messages c) (system c @ sep c, []) = Inr r" ..
  with two show "\<exists>r. process c sp = Inr r" by (simp add: process_def)
next
  assume "sep_style c = SINGLE" "messages c = []"
  then show "process c sp = Inr \<lparr>conv = system c @ ''\<newline>\<newline>'' @ sep c, to_predict = []\<rparr>"
    by (simp add: process_def mk_result_def)
next
  assume "sep_style c = TWO" "messages c = []"
  then show "process c sp = Inr \<lparr>conv = system c @ sep c, to_predict = []\<rparr>"
    by (simp add: process_def mk_result_def)
qed

theorem process_failure_conditions_witness:
  "sep_style broken_conv = SINGLE \<and> \<not> valid_turns (messages broken_conv)
   \<and> process broken_conv True = Inl AssertionError
   \<and> sep_style vicuna_broken = TWO \<and> sep2 vicuna_broken \<noteq> None
   \<and> \<not> valid_turns (messages vicuna_broken)
   \<and> process vicuna_broken True = Inl AssertionError
   \<and> sep_style scenario_conv = SINGLE \<and> valid_turns (messages scenario_conv)
   \<and> (\<exists>r. process scenario_conv True = Inr r)
   \<and> sep_style vicuna_open = TWO \<and> sep2 vicuna_open \<noteq> None
   \<and> nonempty_turns (messages vicuna_open)
   \<and> (\<exists>r. process vicuna_open True = Inr r)
   \<and> messages conv_v1_2 = [] \<and> sep_style conv_v1_2 = SINGLE
   \<and> process conv_v1_2 True
       = Inr \<lparr>conv = system conv_v1_2 @ ''\<newline>\<newline>###'', to_predict = []\<rparr>
   \<and> messages conv_vicuna_v1_1 = [] \<and> sep_style conv_vicuna_v1_1 = TWO
   \<and> process conv_vicuna_v1_1 True
       = Inr \<lparr>conv = system conv_vicuna_v1_1 @ '' '', to_predict = []\<rparr>"
  using process_failure_conditions[of broken_conv True]
    process_failure_conditions[of vicuna_broken True]
    process_failure_conditions[of scenario_conv True]
    process_failure_conditions[of vicuna_open True]
    process_failure_conditions[of conv_v1_2 True]
    process_failure_conditions[of conv_vicuna_v1_1 True]
  by (simp add: broken_conv_def vicuna_broken_def scenario_conv_def vicuna_open_def
      conv_v1_2_def conv_vicuna_v1_1_def valid_turns_def nonempty_turns_def)

text \<open>
  Where the claim fails. The default template has no turns, and \<open>process\<close> returns its
  header. Under the two-separator style a history whose first message is the empty string
  has every message before the last present, and \<open>process\<close> fails; and without
  \<open>sep2\<close> a history with only the last turn open fails with \<open>TypeError\<close>, as does one
  with two open turns, before the assertion is reached.
\<close>

theorem process_empty_turns_counterexample:
  "messages conv_v1_2 = []
   \<and> process conv_v1_2 True
       = Inr \<lparr>conv = system conv_v1_2 @ ''\<newline>\<newline>###'', to_predict = []\<rparr>
   \<and> messages vicuna_empty_message \<noteq> [] \<and> valid_turns (messages vicuna_empty_message)
   \<and> process vicuna_empty_message True = Inl AssertionError
   \<and> messages two_without_sep2 \<noteq> [] \<and> valid_turns (messages two_without_sep2)
   \<and> process two_without_sep2 True = Inl TypeError
   \<and> \<not> valid_turns (messages two_without_sep2_broken)
   \<and> process two_without_sep2_broken True = Inl TypeError"
  by (simp add: conv_v1_2_def conv_vicuna_v1_1_def vicuna_empty_message_def
      two_without_sep2_def two_without_sep2_broken_def process_def mk_result_def
      valid_turns_def seps_def)

lemma get_prompt_limit: "get_prompt depth c sp = Inl RecursionError"
  by (induction depth) simp_all

text \<open>
  C10, as the code has it. \<open>get_prompt\<close> returns no prompt, for every conversation and
  either value of the flag: its body calls \<open>get_prompt\<close> again with the same argument,
  so the calls nest until the interpreter's limit is reached and the call ends with
  \<open>RecursionError\<close>, whatever the limit.
\<close>

theorem get_prompt_recursion_error:
  "get_prompt depth c space_part_of_next_word = Inl RecursionError"
  by (induction depth) simp_all

text \<open>
  With the interpreter's default limit of 1000 frames the call on the default template
  ends: it raises \<open>RecursionError\<close>.
\<close>

theorem get_prompt_terminates_counterexample:
  "get_prompt 1000 conv_v1_2 True = Inl RecursionError"
  by (rule get_prompt_limit)


section \<open>Properties of the worker's trimming of the stream\<close>

lemma str_find_empty: "str_find s [] = Some 0"
  by (cases s) simp_all

lemma str_find_Some:
  "str_find s sub = Some pos \<Longrightarrow> pos \<le> length s \<and> prefix sub (drop pos s)"
proof (induction s arbitrary: pos)
  case Nil
  then show ?case by (simp split: if_splits)
next
  case (Cons c cs)
  show ?case
  proof (cases "prefix sub (c # cs)")
    case True
    with Cons.prems show ?thesis by simp
  next
    case False
    with Cons.prems obtain q where "str_find cs sub = Some q" "pos = Suc q" by auto
    with Cons.IH[of q] show ?thesis by simp
  qed
qed

lemma str_find_prefix: "prefix sub s \<Longrightarrow> str_find s sub = Some 0"
  by (cases s) auto

lemma str_find_occurrence: "str_find (ys @ sub @ zs) sub \<noteq> None"
proof (induction ys)
  case Nil
  show ?case using str_find_prefix[of sub "sub @ zs"] by simp
next
  case (Cons y ys)
  then show ?case by auto
qed

lemma trim_response_nonterminal:
  assumes "trim_response conv_sep ev = Some out" and "\<not> end_of_content out"
  shows "str_find (pr_text ev) conv_sep = None \<and> \<not> end_of_content ev
         \<and> conv_sep \<noteq> [] \<and> length conv_sep \<le> length (pr_text ev)
         \<and> pr_text out = take (length (pr_text ev) - length conv_sep) (pr_text ev)"
proof -
  from assms have none: "str_find (pr_text ev) conv_sep = None"
    by (cases "str_find (pr_text ev) conv_sep") (auto simp: trim_response_def split: if_splits)
  with str_find_empty[of "pr_text ev"] have ne: "conv_sep \<noteq> []" by auto
  from assms none ne show ?thesis
    by (auto simp: trim_response_def py_drop_last_def split: if_splits)
qed

text \<open>
  C2, as the code has it. For a non-terminal event whose text does not contain the
  separator, the worker posts nothing when the text is shorter than the separator, and
  otherwise posts the text without its last \<open>len(conv_sep)\<close> characters: the slice is
  \<open>[:-len(conv_sep)]\<close>, one character more than \<open>len(conv_sep) - 1\<close>.
\<close>

theorem trim_response_withholds:
  assumes "\<not> end_of_content ev" and "str_find (pr_text ev) conv_sep = None"
  shows "trim_response conv_sep ev =
           (if length (pr_text ev) < length conv_sep then None
            else Some \<lparr>pr_text = take (length (pr_text ev) - length conv_sep) (pr_text ev),
                       end_of_content = False\<rparr>)"
proof -
  from assms(2) str_find_empty[of "pr_text ev"] have "conv_sep \<noteq> []" by auto
  with assms show ?thesis
    by (cases ev) (simp add: trim_response_def py_drop_last_def)
qed

theorem trim_response_withholds_witness:
  "\<not> end_of_content \<lparr>pr_text = ''abcd'', end_of_content = False\<rparr>
   \<and> str_find (pr_text \<lparr>pr_text = ''abcd'', end_of_content = False\<rparr>) ''##'' = None
   \<and> trim_response ''##'' \<lparr>pr_text = ''abcd'', end_of_content = False\<rparr>
       = Some \<lparr>pr_text = ''ab'', end_of_content = False\<rparr>"
  using trim_response_withholds[of "\<lparr>pr_text = ''abcd'', end_of_content = False\<rparr>" "''##''"]
  by simp

text \<open>
  With the separator \<open>##\<close> the text \<open>abcd\<close> is posted as \<open>ab\<close>; withholding one
  character less would give \<open>abc\<close>.
\<close>

theorem trim_response_withholds_counterexample:
  "str_find ''abcd'' ''##'' = None
   \<and> trim_response ''##'' \<lparr>pr_text = ''abcd'', end_of_content = False\<rparr>
       = Some \<lparr>pr_text = ''ab'', end_of_content = False\<rparr>
   \<and> take (length ''abcd'' - (length ''##'' - 1)) ''abcd'' = ''abc''"
  by (simp add: trim_response_def py_drop_last_def)

text \<open>
  C6, as the code has it. A non-terminal text that the worker posts stops short of every
  occurrence of the separator that later text completes: if the stream's text goes on to
  \<open>full\<close>, in which the separator first occurs at \<open>pos\<close>, the posted text is a proper
  prefix of the text before \<open>pos\<close>, so it holds no character of that occurrence. The
  posted text itself may end with characters with which the separator begins.
\<close>

theorem trim_response_stops_short:
  assumes "trim_response conv_sep ev = Some out" and "\<not> end_of_content out"
    and "prefix (pr_text ev) full" and "str_find full conv_sep = Some pos"
  shows "strict_prefix (pr_text out) (take pos full)"
proof -
  from trim_response_nonterminal[OF assms(1,2)]
  have none: "str_find (pr_text ev) conv_sep = None"
    and len: "length conv_sep \<le> length (pr_text ev)" and ne: "conv_sep \<noteq> []"
    and out: "pr_text out = take (length (pr_text ev) - length conv_sep) (pr_text ev)"
    by simp_all
  let ?n = "length (pr_text ev)" and ?k = "length conv_sep"
  from assms(3) have ev: "pr_text ev = take ?n full" and nle: "?n \<le> length full"
    by (auto simp: prefix_def)
  from str_find_Some[OF assms(4)] obtain zs where
    pos: "pos \<le> length full" and dr: "drop pos full = conv_sep @ zs"
    by (auto simp: prefix_def)
  define before where "before = take pos full"
  have lb: "length before = pos" using pos by (simp add: before_def)
  have full: "full = before @ conv_sep @ zs"
    using dr append_take_drop_id[of pos full] by (simp add: before_def)
  have "?n < pos + ?k"
  proof (rule ccontr)
    assume "\<not> ?n < pos + ?k"
    then have ge: "pos + ?k \<le> ?n" by simp
    have "take ?n full = before @ conv_sep @ take (?n - pos - ?k) zs"
      using ge lb by (subst full) simp
    with ev have "pr_text ev = before @ conv_sep @ take (?n - pos - ?k) zs" by simp
    with str_find_occurrence[of before conv_sep "take (?n - pos - ?k) zs"] none
    show False by simp
  qed
  with len have lt: "?n - ?k < pos" by simp
  have "pr_text out = take (?n - ?k) (take ?n full)" using out ev by simp
  also have "\<dots> = take (?n - ?k) before" using lt by (simp add: before_def min_def)
  finally have eq: "pr_text out = take (?n - ?k) before" .
  then have "prefix (pr_text out) before" by (simp add: take_is_prefix)
  moreover have "length (pr_text out) < length before" using eq lt lb by simp
  ultimately show ?thesis unfolding before_def by (auto simp: strict_prefix_def)
qed

theorem trim_response_stops_short_witness:
  "trim_response ''###'' \<lparr>pr_text = ''ab#cde'', end_of_content = False\<rparr>
       = Some \<lparr>pr_text = ''ab#'', end_of_content = False\<rparr>
   \<and> prefix ''ab#cde'' ''ab#cde###''
   \<and> str_find ''ab#cde###'' ''###'' = Some 6
   \<and> strict_prefix ''ab#'' (take 6 ''ab#cde###'')"
  using trim_response_stops_short[of "''###''" "\<lparr>pr_text = ''ab#cde'', end_of_content = False\<rparr>"
      "\<lparr>pr_text = ''ab#'', end_of_content = False\<rparr>" "''ab#cde###''" 6]
  by (simp add: trim_response_def py_drop_last_def)

text \<open>
  With the separator \<open>###\<close> the non-terminal text \<open>ab#cde\<close> is posted as \<open>ab#\<close>, which
  ends with \<open>#\<close>, a non-empty prefix of the separator.
\<close>

theorem trim_response_suffix_counterexample:
  "trim_response ''###'' \<lparr>pr_text = ''ab#cde'', end_of_content = False\<rparr>
       = Some \<lparr>pr_text = ''ab#'', end_of_content = False\<rparr>
   \<and> ''#'' \<noteq> [] \<and> prefix ''#'' ''###'' \<and> suffix ''#'' ''ab#''"
  by (simp add: trim_response_def py_drop_last_def suffix_def)


section \<open>Properties of the streaming decode loop\<close>

text \<open>
  C8, as the code has it. \<open>stream_generate\<close> does not validate \<open>max_gen_len\<close>. For
  \<open>0 \<le> max_gen_len\<close> below the context window (the window less the image tokens when an
  image is given), it cuts the prompt from the left exactly when the prompt length plus
  \<open>max_gen_len\<close> exceeds the window, keeping the last \<open>window - max_gen_len\<close> tokens, so
  that the kept prompt and \<open>max_gen_len\<close> fit the window; \<open>total_len\<close> is the minimum of
  the window and \<open>max_gen_len\<close> plus the kept prompt's length; and the call goes on to the
  decode loop.
\<close>

theorem stream_generate_init_window:
  assumes "0 \<le> max_gen_len" and "max_gen_len < context_window M has_image"
  shows "\<exists>prompt_tokens total_len.
           stream_generate_init M prompt has_image max_gen_len
             = (prompt_tokens, context_window M has_image, total_len)
         \<and> prompt_tokens =
             (if int (length (encode M prompt)) + max_gen_len > context_window M has_image
              then drop (length (encode M prompt) - nat (context_window M has_image - max_gen_len))
                     (encode M prompt)
              else encode M prompt)
         \<and> int (length prompt_tokens) + max_gen_len \<le> context_window M has_image
         \<and> total_len = min (context_window M has_image) (max_gen_len + int (length prompt_tokens))
         \<and> (\<exists>g. stream_generate M prompt has_image max_gen_len stops = Inr g)"
proof -
  let ?w = "context_window M has_image" and ?ts = "encode M prompt"
  let ?pt = "py_slice_from (- (?w - max_gen_len)) ?ts"
  have init: "stream_generate_init M prompt has_image max_gen_len
                = (?pt, ?w, min ?w (max_gen_len + int (length ?pt)))"
    by (simp add: stream_generate_init_def context_window_def Let_def)
  have pt: "?pt = (if int (length ?ts) + max_gen_len > ?w
                   then drop (length ?ts - nat (?w - max_gen_len)) ?ts else ?ts)"
  proof -
    define k where "k = nat (?w - max_gen_len)"
    have k: "int k = ?w - max_gen_len" "0 < k" using assms by (simp_all add: k_def)
    have "nat (max (int (length ?ts) + - int k) 0) = length ?ts - k" by linarith
    then have "?pt = drop (length ?ts - k) ?ts"
      using k by (simp add: py_slice_from_def Let_def)
    moreover have "int (length ?ts) + max_gen_len > ?w \<longleftrightarrow> k < length ?ts"
      using k by linarith
    ultimately show ?thesis unfolding k_def[symmetric] by simp
  qed
  have len: "int (length ?pt) + max_gen_len \<le> ?w"
  proof (cases "int (length ?ts) + max_gen_len > ?w")
    case True
    then have "?pt = drop (length ?ts - nat (?w - max_gen_len)) ?ts" by (simp only: pt if_True)
    then have "length ?pt = length ?ts - (length ?ts - nat (?w - max_gen_len))" by simp
    with True assms show ?thesis by linarith
  next
    case False
    then have "?pt = ?ts" by (simp only: pt if_False)
    with False show ?thesis by simp
  qed
  have "\<exists>g. stream_generate M prompt has_image max_gen_len stops = Inr g"
    using assms len by (simp add: stream_generate_def init Let_def min_def)
  with init pt len show ?thesis by simp
qed

theorem stream_generate_init_window_witness:
  "(0::int) \<le> 11 \<and> 11 < context_window (scripted [3, 4] 3) True
   \<and> stream_generate_init (scripted [3, 4] 3) ''Hi'' True 11 = ([3], 12, 12)
   \<and> encode (scripted [3, 4] 3) ''Hi'' = [1, 3, 3]
   \<and> (\<exists>g. stream_generate (scripted [3, 4] 3) ''Hi'' True 11 [] = Inr g)"
  using stream_generate_init_window[of 11 "scripted [3, 4] 3" True "''Hi''" "[]"]
  by (simp add: context_window_def scripted_def)

text \<open>
  With \<open>max_gen_len = 0\<close> the call is not rejected: it ends at once with an empty
  terminal text.
\<close>

theorem stream_generate_zero_length_counterexample:
  "stream_generate (scripted [3, 4] 3) ''Hi'' False 0 []
     = Inr \<lparr>yields = [], returned = \<lparr>pr_text = [], end_of_content = True\<rparr>\<rparr>"
  by code_simp

text \<open>
  C1, at the specification's scenario: \<open>max_gen_len = 5\<close> and a model that produces two
  tokens and then the end-of-sequence id. The generator yields the two non-terminal
  results; the terminal result is the value of its \<open>return\<close> statement, so a \<open>for\<close>
  loop over the generator receives the two non-terminal results and no terminal one.
\<close>

theorem stream_generate_eos_scenario:
  "stream_generate (scripted [3, 4] 3) ''Hi'' False 5 []
     = Inr \<lparr>yields = [\<lparr>pr_text = ''a'', end_of_content = False\<rparr>,
                       \<lparr>pr_text = ''ab'', end_of_content = False\<rparr>],
            returned = \<lparr>pr_text = ''ab'', end_of_content = True\<rparr>\<rparr>
   \<and> map_sum id for_loop_items (stream_generate (scripted [3, 4] 3) ''Hi'' False 5 [])
     = Inr [\<lparr>pr_text = ''a'', end_of_content = False\<rparr>,
            \<lparr>pr_text = ''ab'', end_of_content = False\<rparr>]"
  by code_simp


section \<open>Invariants of the decode loop\<close>


lemma loop_continue:
  assumes "cur_pos < total_len" and "next_token M (take cur_pos tokens) \<noteq> eos_id M"
    and "first_stop (decode M (py_slice start (cur_pos + 1)
           (tokens[cur_pos := next_token M (take cur_pos tokens)]))) stops = None"
  shows "yields (stream_generate_loop M stops start total_len tokens gu cur_pos) =
           \<lparr>pr_text = decode M (py_slice start (cur_pos + 1)
                         (tokens[cur_pos := next_token M (take cur_pos tokens)])),
            end_of_content = False\<rparr>
           # yields (stream_generate_loop M stops start total_len
                      (tokens[cur_pos := next_token M (take cur_pos tokens)]) (cur_pos + 1) (cur_pos + 1))"
  using assms by (subst stream_generate_loop.simps) (simp add: Let_def)

lemma loop_stop:
  assumes "\<not> (cur_pos < total_len \<and> next_token M (take cur_pos tokens) \<noteq> eos_id M
             \<and> first_stop (decode M (py_slice start (cur_pos + 1)
                   (tokens[cur_pos := next_token M (take cur_pos tokens)]))) stops = None)"
  shows "yields (stream_generate_loop M stops start total_len tokens gu cur_pos) = []"
  using assms by (subst stream_generate_loop.simps) (auto simp: Let_def split: option.splits)

lemma loop_yields_nonterminal:
  "list_all (\<lambda>r. \<not> end_of_content r)
     (yields (stream_generate_loop M stops start total_len tokens gu cur_pos))"
proof (induction "total_len - cur_pos" arbitrary: cur_pos tokens gu)
  case 0
  then have "\<not> cur_pos < total_len" by simp
  then show ?case by (simp add: loop_stop)
next
  case (Suc d)
  let ?nxt = "next_token M (take cur_pos tokens)"
  show ?case
  proof (cases "cur_pos < total_len \<and> ?nxt \<noteq> eos_id M
             \<and> first_stop (decode M (py_slice start (cur_pos + 1) (tokens[cur_pos := ?nxt]))) stops = None")
    case False
    from loop_stop[OF False] show ?thesis by simp
  next
    case True
    from Suc.hyps(2) have "d = total_len - (cur_pos + 1)" by simp
    from Suc.hyps(1)[OF this] True show ?thesis by (simp add: loop_continue)
  qed
qed


lemma stream_generate_yields_nonterminal:
  "stream_generate M prompt has_image max_gen_len stops = Inr g \<Longrightarrow>
     list_all (\<lambda>r. \<not> end_of_content r) (for_loop_items g)"
  by (auto simp: stream_generate_def for_loop_items_def Let_def loop_yields_nonterminal
      split: prod.splits if_splits)


section \<open>Properties of the worker and the relay\<close>

lemma worker_for_loop_posted:
  "worker_for_loop conv_sep (Some q) ys
     = (Some (q @ map Content (posted conv_sep ys)),
        posted conv_sep ys \<noteq> [] \<and> end_of_content (last (posted conv_sep ys)))"
proof (induction ys arbitrary: q)
  case Nil
  then show ?case by simp
next
  case (Cons y ys)
  show ?case
  proof (cases "trim_response conv_sep y")
    case None
    with Cons.IH[of q] show ?thesis by simp
  next
    case (Some r)
    with Cons.IH[of "q @ [Content r]"] show ?thesis by (simp add: put_def Let_def)
  qed
qed

lemma worker_for_loop_no_queue:
  "fst (worker_for_loop conv_sep None ys) = None"
  by (induction ys) (auto simp: put_def Let_def split: option.splits)

lemma posted_butlast: "list_all (\<lambda>r. \<not> end_of_content r) (butlast (posted conv_sep ys))"
  by (induction ys) (auto split: option.splits)




lemma relay_loop_contents:
  "list_all (\<lambda>r. \<not> end_of_content r) (butlast ps) \<Longrightarrow>
     relay_loop (map Content ps @ rest)
       = (if ps \<noteq> [] \<and> end_of_content (last ps) then (ps, Finished)
          else (ps @ fst (relay_loop rest), snd (relay_loop rest)))"
proof (induction ps)
  case Nil
  then show ?case by simp
next
  case (Cons p ps)
  show ?case
  proof (cases "ps = []")
    case True
    then show ?thesis by (simp add: case_prod_unfold)
  next
    case False
    with Cons.prems have "\<not> end_of_content p" "list_all (\<lambda>r. \<not> end_of_content r) (butlast ps)"
      by simp_all
    with Cons.IH False show ?thesis by (simp add: case_prod_unfold)
  qed
qed

lemma served_posted:
  "served conv_sep run
     = (posted conv_sep (items run),
        if posted conv_sep (items run) \<noteq> [] \<and> end_of_content (last (posted conv_sep (items run)))
        then Finished
        else (case raised run of None \<Rightarrow> Raised TypeError | Some e \<Rightarrow> Raised RuntimeError))"
proof -
  let ?ps = "posted conv_sep (items run)"
  let ?broke = "?ps \<noteq> [] \<and> end_of_content (last ?ps)"
  have it: "worker_iteration conv_sep (Some []) run
          = Inr (Some ([Ready] @ map Content ?ps
                   @ (if \<not> ?broke \<and> raised run \<noteq> None then [ModelFailure] else [])))"
    by (auto simp: worker_iteration_def put_def worker_for_loop_posted split: option.splits)
  have rl: "relay_loop (map Content ?ps @ tail)
          = (if ?broke then (?ps, Finished) else (?ps @ fst (relay_loop tail), snd (relay_loop tail)))"
    for tail
    using relay_loop_contents[OF posted_butlast] .
  show ?thesis
    by (cases "raised run")
       (simp_all add: served_def rank_response_queue_def it put_def rl)
qed





text \<open>
  C5, as the code has it. A worker that holds the response queue (rank 0) and fails while
  handling a request posts \<open>ModelFailure\<close> after its \<open>Ready\<close>; the relay loop, on
  reading \<open>ModelFailure\<close>, raises one \<open>RuntimeError\<close> and relays nothing more. For a
  request whose stream fails, the caller observes the results posted before the failure
  and then that single error, unless a terminal result came first; when the failure
  comes before any result the caller observes the error alone.
\<close>

theorem failure_marker_relayed:
  "worker_iteration conv_sep (rank_response_queue 0 q) \<lparr>items = [], raised = Some e\<rparr>
     = Inr (Some (q @ [Ready, ModelFailure]))
   \<and> relay_loop (ModelFailure # rest) = ([], Raised RuntimeError)
   \<and> stream_model_output chatbot (Ready # ModelFailure # rest) = ([], Raised RuntimeError)
   \<and> served conv_sep \<lparr>items = ys, raised = Some e\<rparr>
       = (posted conv_sep ys,
          if posted conv_sep ys \<noteq> [] \<and> end_of_content (last (posted conv_sep ys))
          then Finished else Raised RuntimeError)
   \<and> served conv_sep \<lparr>items = [], raised = Some e\<rparr> = ([], Raised RuntimeError)"
  by (simp add: served_posted worker_iteration_def rank_response_queue_def put_def
      stream_model_output_def)

text \<open>
  A worker of rank 1 holds no response queue: when its request fails, the handler's
  \<open>put\<close> raises \<open>AttributeError\<close> and no marker is posted.
\<close>

theorem replica_failure_counterexample:
  "rank_response_queue 1 [] = None
   \<and> worker_iteration ''###'' (rank_response_queue 1 []) \<lparr>items = [], raised = Some RuntimeError\<rparr>
       = Inl AttributeError
   \<and> model_worker ''###'' (rank_response_queue 1 []) [\<lparr>items = [], raised = Some RuntimeError\<rparr>]
       = Inl AttributeError"
  by (simp add: worker_iteration_def rank_response_queue_def put_def)

end